theory Spec2Isabelle
  imports Main
begin

section \<open>Data model\<close>

text \<open>
  The program is the script \<^verbatim>\<open>crew_analyser.py\<close>: it collects the Python files of a
  workspace with \<^verbatim>\<open>glob.glob\<close>, declares three agents, three tasks and a crew, runs
  \<^verbatim>\<open>code_analysis_crew.kickoff()\<close> and writes the result to files.
\<close>

subsection \<open>Values of the result\<close>

text \<open>
  \<^verbatim>\<open>result.json_dict\<close> is an \<^verbatim>\<open>Optional[Dict[str, Any]]\<close>: a dictionary is an association
  list in insertion order, its values are JSON values: \<^verbatim>\<open>None\<close>, booleans, integers,
  strings, lists and dictionaries with string keys. Floats are left out. A character of
  a string is a code point below 256.
\<close>

datatype json =
    JNull
  | JBool bool
  | JNum int
  | JStr string
  | JArr "json list"
  | JObj "(string \<times> json) list"

type_synonym py_dict = "(string \<times> json) list"

text \<open>
  \<^verbatim>\<open>result.pydantic\<close> is an object of a class the script never sees. The script observes
  two things of it: its truth value (\<^verbatim>\<open>if result.pydantic:\<close>) and its string form
  (\<^verbatim>\<open>str(result.pydantic)\<close>). The object is modelled by these two observations.
\<close>

record py_object =
  obj_bool :: bool
  obj_str :: string

text \<open>The output of one task: \<^verbatim>\<open>raw\<close> always, the structured forms optionally.\<close>

record task_result =
  raw :: string
  json_dict :: "py_dict option"
  pydantic :: "py_object option"

record usage =
  prompt_tokens :: nat
  completion_tokens :: nat

text \<open>
  The value of \<^verbatim>\<open>code_analysis_crew.kickoff()\<close>: the fields the script reads are
  \<^verbatim>\<open>raw\<close>, \<^verbatim>\<open>json_dict\<close>, \<^verbatim>\<open>pydantic\<close>, \<^verbatim>\<open>tasks_output\<close> and \<^verbatim>\<open>token_usage\<close>.
\<close>

record pipeline_result = task_result +
  tasks_output :: "task_result list"
  token_usage :: usage

text \<open>
  The exceptions that can end the script: an \<^verbatim>\<open>OSError\<close> of \<^verbatim>\<open>open\<close>, a failure of an
  agent invocation, and a crew that cannot be run as it is configured. \<open>ValueError\<close> is
  what \<^verbatim>\<open>json.loads\<close> raises on a text that is not JSON (\<^verbatim>\<open>json.JSONDecodeError\<close> is a
  subclass of it); the script itself never parses a text.
\<close>

datatype py_error =
    OSError string
  | CapabilityError string
  | ConfigurationError string
  | ValueError string

subsection \<open>The Python host\<close>

text \<open>
  Functions of the Python standard library and of the agent framework that the script
  calls and whose code is not part of the repository. They are parameters of the model:
  \<^item> \<open>path_join\<close> is \<^verbatim>\<open>os.path.join\<close>, \<open>normcase\<close> is \<^verbatim>\<open>os.path.normcase\<close>;
  \<^item> \<open>repr_str\<close> is \<^verbatim>\<open>repr\<close> on a \<^verbatim>\<open>str\<close>, \<open>repr_task_output\<close> is \<^verbatim>\<open>repr\<close> on one
    element of \<^verbatim>\<open>result.tasks_output\<close>, \<open>str_usage\<close> is \<^verbatim>\<open>str\<close> on
    \<^verbatim>\<open>result.token_usage\<close>.

  \<^verbatim>\<open>os.path.join\<close> is \<^verbatim>\<open>posixpath.join\<close> or \<^verbatim>\<open>ntpath.join\<close>, after the system the
  script runs on; both are defined below.
\<close>

record host =
  path_join :: "string \<Rightarrow> string \<Rightarrow> string"
  normcase :: "string \<Rightarrow> string"
  repr_str :: "string \<Rightarrow> string"
  repr_task_output :: "task_result \<Rightarrow> string"
  str_usage :: "usage \<Rightarrow> string"

text \<open>\<^verbatim>\<open>sep.join(xs)\<close>.\<close>

fun str_join :: "string \<Rightarrow> string list \<Rightarrow> string" where
  "str_join sep [] = []"
| "str_join sep [x] = x"
| "str_join sep (x # y # ys) = x @ sep @ str_join sep (y # ys)"

text \<open>
  \<^verbatim>\<open>str\<close> of a list, which is what an f-string field \<^verbatim>\<open>{xs}\<close> inserts: the
  \<^verbatim>\<open>repr\<close> of every element, separated by a comma and a space, in brackets.
\<close>

definition str_list :: "('a \<Rightarrow> string) \<Rightarrow> 'a list \<Rightarrow> string" where
  "str_list repr_elem xs = ''['' @ str_join '', '' (map repr_elem xs) @ '']''"

subsection \<open>Agents, tasks and the crew\<close>

datatype llm = LLM string

datatype tool = FileReadTool

text \<open>
  An \<^verbatim>\<open>Agent(...)\<close>. A keyword the script leaves out has the empty value: no tools,
  not verbose.
\<close>

record agent =
  role :: string
  goal :: string
  backstory :: string
  tools :: "tool list"
  agent_llm :: llm
  verbose :: bool

text \<open>
  A \<^verbatim>\<open>Task(...)\<close>. Python tasks are objects, and \<^verbatim>\<open>context=[read_code_task]\<close> holds a
  reference to the object bound to that name. The model keeps the identity of a task
  as \<open>task_id\<close>, the name the script binds the object to, and a context is the list of
  the identities it refers to. A task constructed without \<^verbatim>\<open>context\<close> has none.
\<close>

type_synonym task_ref = string

record task =
  task_id :: task_ref
  description :: string
  task_agent :: agent
  expected_output :: string
  task_context :: "task_ref list"

text \<open>\<^verbatim>\<open>Process.sequential\<close> is the only process the script names.\<close>

datatype process = Sequential

record crew =
  agents :: "agent list"
  tasks :: "task list"
  process :: process

section \<open>The script\<close>

subsection \<open>Lines 17 to 93: the model and the agents\<close>

definition llm :: llm where
  "llm = LLM ''openai/gpt-4o-mini''"

definition file_read_tool :: tool where
  "file_read_tool = FileReadTool"

definition code_reader_agent :: agent where
  "code_reader_agent = \<lparr>
     role = ''Python Code Parser'',
     goal =
       ''Systematically read and parse Python files to extract detailed code structure information:\<newline>'' @
       ''    1. Extract module-level docstrings and comments\<newline>'' @
       ''    2. Identify all class and function definitions with their signatures\<newline>'' @
       ''    3. Capture imports and module dependencies\<newline>'' @
       ''    4. Preserve code hierarchy and nesting relationships\<newline>'' @
       ''    5. Document code organization and file structure'',
     backstory =
       ''You are an expert Python code parser specialized in breaking down source code into well-structured components. \<newline>'' @
       ''    You carefully analyze file contents to create organized representations that preserve both syntax and semantic relationships.\<newline>'' @
       ''    You pay special attention to docstrings, type hints, and code organization patterns.'',
     tools = [file_read_tool],
     agent_llm = llm,
     verbose = True\<rparr>"

definition structure_analyzer_agent :: agent where
  "structure_analyzer_agent = \<lparr>
     role = ''Structure Analyzer'',
     goal =
       ''Analyze code structure and relationships to:\<newline>'' @
       ''    1. Map class hierarchies, inheritance patterns, and composition relationships\<newline>'' @
       ''    2. Document class attributes, methods, and their visibility (public/private)\<newline>'' @
       ''    3. Identify key design patterns and architectural components\<newline>'' @
       ''    4. Trace object interactions and dependencies between classes\<newline>'' @
       ''    5. Evaluate code modularity and coupling between components'',
     backstory =
       ''You are an expert software architect specializing in Python code analysis. \<newline>'' @
       ''    You excel at understanding complex object-oriented structures, identifying relationships between components,\<newline>'' @
       ''    and mapping how different parts of the application interact. You focus on both the technical implementation \<newline>'' @
       ''    details and the higher-level architectural patterns.'',
     tools = [],
     agent_llm = llm,
     verbose = False\<rparr>"

definition report_writer_agent :: agent where
  "report_writer_agent = \<lparr>
     role = ''Technical Documentation Specialist'',
     goal =
       ''Create comprehensive technical documentation including:\<newline>'' @
       ''    1. Generate detailed PlantUML class diagrams showing class relationships\<newline>'' @
       ''    2. Create PlantUML sequence diagrams for key interactions\<newline>'' @
       ''    3. Provide a clear hierarchical structure of the codebase\<newline>'' @
       ''    4. Document architectural patterns and design decisions\<newline>'' @
       ''    5. Include dependency graphs and component relationships'',
     backstory =
       ''You are an expert technical writer with deep knowledge of UML and documentation best practices.\<newline>'' @
       ''    You excel at creating clear, visual documentation using PlantUML syntax and markdown.\<newline>'' @
       ''    You know how to organize complex technical information into easily digestible formats.'',
     tools = [],
     agent_llm = llm,
     verbose = False\<rparr>"

subsection \<open>Lines 103 to 137: the tasks\<close>

text \<open>
  The description of \<^verbatim>\<open>read_code_task\<close> is an f-string: the field \<^verbatim>\<open>{python_files}\<close>
  inserts \<^verbatim>\<open>str(python_files)\<close>.
\<close>

definition read_code_task :: "host \<Rightarrow> string list \<Rightarrow> task" where
  "read_code_task h python_files = \<lparr>
     task_id = ''read_code_task'',
     description =
       ''Systematically parse and extract information from these Python files: '' @
       str_list (repr_str h) python_files @
       ''\<newline>'' @
       ''    Focus on:\<newline>'' @
       ''    1. Module-level docstrings and comments\<newline>'' @
       ''    2. Class and function definitions with signatures\<newline>'' @
       ''    3. Import statements and dependencies\<newline>'' @
       ''    4. Code hierarchy and nesting\<newline>'' @
       ''    5. File organization patterns'',
     task_agent = code_reader_agent,
     expected_output =
       ''Structured representation of code components with preserved relationships and documentation.'',
     task_context = []\<rparr>"

definition analyze_structure_task :: task where
  "analyze_structure_task = \<lparr>
     task_id = ''analyze_structure_task'',
     description =
       ''Analyze the parsed code to create a comprehensive structural map:\<newline>'' @
       ''    1. Document class hierarchies and inheritance patterns\<newline>'' @
       ''    2. Map class attributes, methods, and their visibility\<newline>'' @
       ''    3. Identify implemented design patterns\<newline>'' @
       ''    4. Trace object interactions and dependencies\<newline>'' @
       ''    5. Evaluate component coupling and modularity'',
     task_agent = structure_analyzer_agent,
     expected_output =
       ''Detailed architectural analysis with class relationships, patterns, and component interactions.'',
     task_context = [''read_code_task'']\<rparr>"

definition write_report_task :: task where
  "write_report_task = \<lparr>
     task_id = ''write_report_task'',
     description =
       ''Generate comprehensive technical documentation using PlantUML:\<newline>'' @
       ''    1. Create class diagrams showing relationships and hierarchies\<newline>'' @
       ''    2. Design sequence diagrams for key interactions\<newline>'' @
       ''    3. Document the codebase hierarchy\<newline>'' @
       ''    4. Detail architectural patterns\<newline>'' @
       ''    5. Include dependency and component relationships'',
     task_agent = report_writer_agent,
     expected_output =
       ''Complete technical documentation with UML diagrams, architectural overview, and relationship maps.'',
     task_context = [''analyze_structure_task'']\<rparr>"

subsection \<open>Lines 140 to 149: the crew\<close>

definition code_analysis_crew :: "host \<Rightarrow> string list \<Rightarrow> crew" where
  "code_analysis_crew h python_files = \<lparr>
     agents = [code_reader_agent, structure_analyzer_agent, report_writer_agent],
     tasks = [read_code_task h python_files, analyze_structure_task, write_report_task],
     process = Sequential\<rparr>"

section \<open>The task graph\<close>

text \<open>
  The context relation of a list of tasks: \<open>(a, b)\<close> when the task with identity \<open>a\<close>
  has \<open>b\<close> in its context.
\<close>

definition context_edges :: "task list \<Rightarrow> (task_ref \<times> task_ref) list" where
  "context_edges ts = concat (map (\<lambda>t. map (\<lambda>r. (task_id t, r)) (task_context t)) ts)"

text \<open>
  Every context of the list refers only to tasks that stand earlier in the list:
  \<open>seen\<close> holds the identities of the tasks passed so far.
\<close>

fun refers_back :: "task_ref list \<Rightarrow> task list \<Rightarrow> bool" where
  "refers_back seen [] = True"
| "refers_back seen (t # ts) =
     (list_all (\<lambda>r. r \<in> set seen) (task_context t) \<and> refers_back (seen @ [task_id t]) ts)"

text \<open>
  A linear chain: the first task has no context, and the context of every later task
  is exactly its predecessor in the list.
\<close>

fun chain_from :: "task \<Rightarrow> task list \<Rightarrow> bool" where
  "chain_from p [] = True"
| "chain_from p (t # ts) = (task_context t = [task_id p] \<and> chain_from t ts)"

definition linear_chain :: "task list \<Rightarrow> bool" where
  "linear_chain ts = (case ts of [] \<Rightarrow> True | t # ts' \<Rightarrow> task_context t = [] \<and> chain_from t ts')"

section \<open>FileSet discovery: line 23\<close>

text \<open>
  \<^verbatim>\<open>python_files = glob.glob(os.path.join(workspace_folder, "**/*.py"), recursive=True)\<close>.
  The functions below follow \<^verbatim>\<open>glob.py\<close> of the Python standard library for this one
  pattern: a literal directory, the recursive wildcard \<^verbatim>\<open>**\<close>, and the name pattern
  \<^verbatim>\<open>*.py\<close>, with \<^verbatim>\<open>include_hidden\<close> left at its default \<^verbatim>\<open>False\<close>.
\<close>

subsection \<open>The workspace folder and \<^verbatim>\<open>os.path.join\<close>\<close>

text \<open>Line 20. The string is a raw literal: every backslash stands for itself.\<close>

definition workspace_folder :: string where
  "workspace_folder =
     ''C:'' @ CHR 0x5C # ''Users'' @ CHR 0x5C # ''aubry'' @ CHR 0x5C # ''Documents'' @
     CHR 0x5C # ''Programs'' @ CHR 0x5C # ''Taxo_Analysis_Interface_App'' @
     CHR 0x5C # ''taxo_analysis_interface_app''"


text \<open>\<^verbatim>\<open>posixpath.join(a, b)\<close>.\<close>

definition posixpath_join :: "string \<Rightarrow> string \<Rightarrow> string" where
  "posixpath_join a b =
     (if b \<noteq> [] \<and> hd b = CHR ''/'' then b
      else if a = [] \<or> last a = CHR ''/'' then a @ b
      else a @ ''/'' @ b)"










subsection \<open>The file system\<close>

text \<open>
  The file system below the workspace folder is a finite tree: a node is a file or a
  directory with its entries in the order \<^verbatim>\<open>os.scandir\<close> yields them. The flag of a
  directory tells whether \<^verbatim>\<open>os.scandir\<close> lists it; when it is false \<^verbatim>\<open>os.scandir\<close> raises
  \<^verbatim>\<open>OSError\<close>, as it does on a directory the process may not read. A symbolic link
  stands for what it points to. What stands at the workspace folder itself is an
  \<open>fs_node option\<close>: \<open>None\<close> when the path does not exist.
\<close>

datatype fs_node = File | Dir bool "(string \<times> fs_node) list"

fun is_dir :: "fs_node \<Rightarrow> bool" where
  "is_dir (Dir r es) = True"
| "is_dir File = False"

text \<open>\<^verbatim>\<open>os.path.isdir\<close>: false for a path that does not exist.\<close>

fun isdir :: "fs_node option \<Rightarrow> bool" where
  "isdir None = False"
| "isdir (Some n) = is_dir n"

text \<open>
  The node a relative path (a list of names) leads to: the path exists, whether or not
  the directories on the way can be listed. Of two entries with one name the first is
  found; a directory of a real file system has no such entries.
\<close>

fun lookup :: "fs_node \<Rightarrow> string list \<Rightarrow> fs_node option"
  and lookup_names :: "(string \<times> fs_node) list \<Rightarrow> string \<Rightarrow> string list \<Rightarrow> fs_node option" where
  "lookup n [] = Some n"
| "lookup File (x # p) = None"
| "lookup (Dir r es) (x # p) = lookup_names es x p"
| "lookup_names [] x p = None"
| "lookup_names ((y, c) # es) x p = (if y = x then lookup c p else lookup_names es x p)"

definition lookup_from :: "fs_node option \<Rightarrow> string list \<Rightarrow> fs_node option" where
  "lookup_from root p = (case root of None \<Rightarrow> None | Some n \<Rightarrow> lookup n p)"

subsection \<open>\<^verbatim>\<open>glob.glob\<close>\<close>

text \<open>
  \<^verbatim>\<open>_ishidden(path)\<close> is \<^verbatim>\<open>path[0] == '.'\<close>. It is only called on names of directory
  entries, which are never empty.
\<close>

definition ishidden :: "string \<Rightarrow> bool" where
  "ishidden path = (case path of [] \<Rightarrow> False | c # cs \<Rightarrow> c = CHR ''.'')"

text \<open>
  \<^verbatim>\<open>_listdir(dirname, dir_fd, dironly)\<close>: the names of the entries, only the directories
  when \<open>dironly\<close>. \<^verbatim>\<open>os.scandir\<close> raises \<^verbatim>\<open>OSError\<close> on a path that is missing, is not a
  directory or cannot be listed, and \<^verbatim>\<open>_iterdir\<close> catches it: the list is empty.
\<close>

fun listdir :: "fs_node option \<Rightarrow> bool \<Rightarrow> string list" where
  "listdir (Some (Dir r es)) dironly =
     (if r then map fst (filter (\<lambda>e. \<not> dironly \<or> is_dir (snd e)) es) else [])"
| "listdir (Some File) dironly = []"
| "listdir None dironly = []"

text \<open>
  \<^verbatim>\<open>_rlistdir(dirname, dir_fd, dironly=True, include_hidden=False)\<close>: for every
  directory \<open>x\<close> of the listing that is not hidden, \<open>x\<close> itself and then every path of
  the recursive call below \<open>x\<close>, with \<open>x\<close> in front. A directory that cannot be listed
  has an empty listing: it is yielded itself, and nothing below it is. A relative path
  is the list of its names.
\<close>

fun rlistdir :: "fs_node \<Rightarrow> string list list"
  and rlistdir_names :: "(string \<times> fs_node) list \<Rightarrow> string list list" where
  "rlistdir File = []"
| "rlistdir (Dir r es) = (if r then rlistdir_names es else [])"
| "rlistdir_names [] = []"
| "rlistdir_names ((x, c) # es) =
     (if is_dir c \<and> \<not> ishidden x then [x] # map ((#) x) (rlistdir c) else []) @ rlistdir_names es"

text \<open>
  \<^verbatim>\<open>_glob2(dirname, '**', dir_fd, dironly=True)\<close>: the empty path when \<open>dirname\<close> is a
  directory, then the recursive listing.
\<close>

definition glob2 :: "fs_node option \<Rightarrow> string list list" where
  "glob2 root =
     (if isdir root then [[]] else []) @ (case root of None \<Rightarrow> [] | Some n \<Rightarrow> rlistdir n)"

text \<open>
  \<^verbatim>\<open>fnmatch.filter(names, '*.py')\<close> keeps a name when the regular expression
  \<^verbatim>\<open>(?s:.*\.py)\Z\<close> matches \<^verbatim>\<open>os.path.normcase(name)\<close>: the normalised name ends with
  \<^verbatim>\<open>.py\<close>. (The pattern \<^verbatim>\<open>*.py\<close> is its own normal form.)
\<close>

definition fnmatch_py :: "host \<Rightarrow> string \<Rightarrow> bool" where
  "fnmatch_py h name =
     (let n = normcase h name in 3 \<le> length n \<and> drop (length n - 3) n = ''.py'')"

text \<open>
  \<^verbatim>\<open>_glob1(dirname, '*.py', dir_fd, dironly=False)\<close>: the pattern is not hidden, so the
  hidden names are dropped before the match.
\<close>

definition glob1 :: "host \<Rightarrow> fs_node option \<Rightarrow> string list" where
  "glob1 h d = filter (fnmatch_py h) (filter (\<lambda>x. \<not> ishidden x) (listdir d False))"

text \<open>
  \<^verbatim>\<open>_iglob\<close> on the pattern: \<open>dirs\<close> are the paths \<^verbatim>\<open>_glob2\<close> yields for \<^verbatim>\<open>**\<close>, and in
  every one of them \<^verbatim>\<open>_glob1\<close> matches \<^verbatim>\<open>*.py\<close>. The result is the list of the matches
  as paths relative to the workspace folder.
\<close>

definition iglob :: "host \<Rightarrow> fs_node option \<Rightarrow> string list list" where
  "iglob h root =
     concat (map (\<lambda>d. map (\<lambda>name. d @ [name]) (glob1 h (lookup_from root d))) (glob2 root))"

text \<open>
  The strings \<^verbatim>\<open>glob.glob\<close> returns: \<^verbatim>\<open>_rlistdir\<close> joins the names of a relative
  directory from the right, \<^verbatim>\<open>_iglob\<close> joins the workspace folder with the relative
  directory (the empty string for the folder itself), and that with the matched name.
\<close>

fun rel_str :: "host \<Rightarrow> string list \<Rightarrow> string" where
  "rel_str h [] = []"
| "rel_str h [x] = x"
| "rel_str h (x # y # ys) = path_join h x (rel_str h (y # ys))"

definition path_str :: "host \<Rightarrow> string list \<Rightarrow> string" where
  "path_str h p =
     path_join h (path_join h workspace_folder (rel_str h (butlast p))) (last p)"

definition glob_glob :: "host \<Rightarrow> fs_node option \<Rightarrow> string list" where
  "glob_glob h root = map (path_str h) (iglob h root)"

section \<open>The pipeline executor\<close>

text \<open>
  Modelled from the spec: the executor behind \<^verbatim>\<open>code_analysis_crew.kickoff()\<close> is code
  of the agent framework and not part of the source files. The definitions of this
  section follow the algorithm and the failure semantics the specification gives for
  the Pipeline Executor.
\<close>

text \<open>
  Modelled from the spec: the request an agent is invoked with (the executor is
  missing). It holds the agent, the description and the expected output of the task,
  and the results of the tasks of its context.
\<close>

record request =
  req_agent :: agent
  req_description :: string
  req_expected_output :: string
  req_context :: "task_result list"

text \<open>
  Modelled from the spec: the capability that runs an agent on a request (the language
  model behind the executor is missing). It returns a task result and the tokens it
  used, or fails.
\<close>

type_synonym capability = "request \<Rightarrow> py_error + (task_result \<times> usage)"

text \<open>
  Modelled from the spec: what the executor does, in the order it does it (the
  executor is missing): it starts a task by invoking its agent, and it records the
  result the agent returned, or the invocation fails.
\<close>

datatype event =
    Started task_ref
  | Recorded task_ref task_result
  | Failed task_ref py_error

text \<open>
  Modelled from the spec: the state of a run (the executor is missing): the results
  recorded so far with the task each belongs to, the tokens used so far, and the
  events so far.
\<close>

record exec_state =
  recorded :: "(task_ref \<times> task_result) list"
  used :: usage
  events :: "event list"

definition add_usage :: "usage \<Rightarrow> usage \<Rightarrow> usage" where
  "add_usage u v = \<lparr>prompt_tokens = prompt_tokens u + prompt_tokens v,
     completion_tokens = completion_tokens u + completion_tokens v\<rparr>"

definition init_state :: exec_state where
  "init_state = \<lparr>recorded = [], used = \<lparr>prompt_tokens = 0, completion_tokens = 0\<rparr>, events = []\<rparr>"

text \<open>
  Modelled from the spec: the results of the tasks of a context (the executor is
  missing). The result of every task of the context must be recorded already;
  \<open>None\<close> when one is not.
\<close>

fun context_results :: "(task_ref \<times> task_result) list \<Rightarrow> task_ref list \<Rightarrow> task_result list option" where
  "context_results rs [] = Some []"
| "context_results rs (r # refs) =
     (case map_of rs r of
        None \<Rightarrow> None
      | Some out \<Rightarrow>
          (case context_results rs refs of None \<Rightarrow> None | Some outs \<Rightarrow> Some (out # outs)))"

text \<open>
  Modelled from the spec: the loop of the executor over the tasks in graph order (the
  executor is missing). For each task it assembles the request, refusing a task whose
  context is not complete; invokes the agent; records the result and only then goes on
  to the next task. A failed invocation ends the run with its error.
\<close>

fun execute_tasks :: "capability \<Rightarrow> task list \<Rightarrow> exec_state \<Rightarrow> exec_state \<times> py_error option" where
  "execute_tasks cap [] s = (s, None)"
| "execute_tasks cap (t # ts) s =
     (case context_results (recorded s) (task_context t) of
        None \<Rightarrow> (s, Some (ConfigurationError (task_id t)))
      | Some outs \<Rightarrow>
          (let s1 = s\<lparr>events := events s @ [Started (task_id t)]\<rparr>;
               req = \<lparr>req_agent = task_agent t, req_description = description t,
                      req_expected_output = expected_output t, req_context = outs\<rparr>
           in case cap req of
                Inl e \<Rightarrow> (s1\<lparr>events := events s1 @ [Failed (task_id t) e]\<rparr>, Some e)
              | Inr (out, u) \<Rightarrow>
                  execute_tasks cap ts
                    (s1\<lparr>recorded := recorded s1 @ [(task_id t, out)],
                        used := add_usage (used s1) u,
                        events := events s1 @ [Recorded (task_id t) out]\<rparr>)))"

text \<open>
  Modelled from the spec: the run of a crew (the executor is missing). After the last
  task the result takes \<open>raw\<close>, \<open>json_dict\<close> and \<open>pydantic\<close> from the result of the
  last task, \<open>tasks_output\<close> is the list of all results in order, and \<open>token_usage\<close> is
  the sum over all invocations. A crew without tasks has no last result: the run fails.
\<close>

definition run_crew :: "capability \<Rightarrow> crew \<Rightarrow> event list \<times> (py_error + pipeline_result)" where
  "run_crew cap c =
     (case process c of
        Sequential \<Rightarrow>
          (case execute_tasks cap (tasks c) init_state of
             (s, Some e) \<Rightarrow> (events s, Inl e)
           | (s, None) \<Rightarrow>
               (if recorded s = [] then (events s, Inl (ConfigurationError ''no tasks''))
                else
                  (let final = snd (last (recorded s)) in
                   (events s,
                    Inr \<lparr>raw = raw final, json_dict = json_dict final, pydantic = pydantic final,
                         tasks_output = map snd (recorded s), token_usage = used s\<rparr>)))))"

text \<open>
  Modelled from the spec: \<^verbatim>\<open>kickoff()\<close> as the script sees it (the executor is
  missing): the result of the run, or its error.
\<close>

definition kickoff :: "capability \<Rightarrow> crew \<Rightarrow> py_error + pipeline_result" where
  "kickoff cap c = snd (run_crew cap c)"

section \<open>JSON text: \<^verbatim>\<open>json.dump\<close> and \<^verbatim>\<open>json.loads\<close>\<close>

text \<open>
  Line 162 is \<^verbatim>\<open>json.dump(result.json_dict, f, indent=2)\<close>. The functions below follow
  \<^verbatim>\<open>json/encoder.py\<close> of the Python standard library on the values of \<open>json\<close>, with
  the defaults of \<^verbatim>\<open>json.dump\<close> that the script leaves as they are: \<^verbatim>\<open>ensure_ascii=True\<close>,
  \<^verbatim>\<open>sort_keys=False\<close>, and the separators \<^verbatim>\<open>','\<close> and \<^verbatim>\<open>': '\<close> that go with an indent.
  The limits of the interpreter (the depth of the recursion, the number of digits of
  an integer that is converted to a string) are not modelled.
\<close>

subsection \<open>Numbers\<close>

text \<open>A decimal digit, and the number a string of decimal digits stands for.\<close>

definition digit :: "nat \<Rightarrow> char" where
  "digit d = ''0123456789'' ! (d mod 10)"

definition digits_value :: "string \<Rightarrow> nat" where
  "digits_value s = foldl (\<lambda>a c. 10 * a + (of_char c - 48)) 0 s"

text \<open>\<^verbatim>\<open>int.__repr__\<close>, which the encoder calls on an integer.\<close>

function nat_repr :: "nat \<Rightarrow> string" where
  "nat_repr n = (if n < 10 then [digit n] else nat_repr (n div 10) @ [digit n])"
  by pat_completeness auto
termination
  by (relation "measure (\<lambda>n. n)") auto

declare nat_repr.simps [simp del]

definition int_repr :: "int \<Rightarrow> string" where
  "int_repr i = (if i < 0 then CHR ''-'' # nat_repr (nat (- i)) else nat_repr (nat i))"

subsection \<open>The encoder\<close>

text \<open>
  \<^verbatim>\<open>py_encode_basestring_ascii(s)\<close>: the string in double quotes; the backslash, the
  double quote and the control characters of \<^verbatim>\<open>ESCAPE_DCT\<close> with their short escapes;
  the printable ASCII characters as they are; every other character as \<^verbatim>\<open>\uXXXX\<close> with
  four lower-case hexadecimal digits (\<^verbatim>\<open>'\\u{0:04x}'.format(n)\<close>).
\<close>

definition hex_digit :: "nat \<Rightarrow> char" where
  "hex_digit d = ''0123456789abcdef'' ! (d mod 16)"

definition hex4 :: "nat \<Rightarrow> string" where
  "hex4 n = [hex_digit (n div 4096), hex_digit (n div 256), hex_digit (n div 16), hex_digit n]"

definition escape_ascii :: "char \<Rightarrow> string" where
  "escape_ascii c =
     (if c = CHR 0x5C then [CHR 0x5C, CHR 0x5C]
      else if c = CHR 0x22 then [CHR 0x5C, CHR 0x22]
      else if c = CHR 0x08 then [CHR 0x5C, CHR ''b'']
      else if c = CHR 0x0C then [CHR 0x5C, CHR ''f'']
      else if c = CHR 0x0A then [CHR 0x5C, CHR ''n'']
      else if c = CHR 0x0D then [CHR 0x5C, CHR ''r'']
      else if c = CHR 0x09 then [CHR 0x5C, CHR ''t'']
      else if 0x20 \<le> (of_char c :: nat) \<and> (of_char c :: nat) \<le> 0x7E then [c]
      else CHR 0x5C # CHR ''u'' # hex4 (of_char c))"

definition encode_basestring_ascii :: "string \<Rightarrow> string" where
  "encode_basestring_ascii s = CHR 0x22 # concat (map escape_ascii s) @ [CHR 0x22]"

text \<open>
  \<^verbatim>\<open>newline_indent = '\n' + _indent * _current_indent_level\<close>, where \<^verbatim>\<open>_indent\<close> is
  \<open>ind\<close> spaces.
\<close>

definition newline_indent :: "nat \<Rightarrow> nat \<Rightarrow> string" where
  "newline_indent ind lvl = CHR 0x0A # replicate (ind * lvl) CHR '' ''"

text \<open>
  \<^verbatim>\<open>_iterencode\<close>, \<^verbatim>\<open>_iterencode_list\<close> and \<^verbatim>\<open>_iterencode_dict\<close> of \<^verbatim>\<open>_make_iterencode\<close>,
  with the chunks they yield put together. An empty list is \<^verbatim>\<open>[]\<close> and an empty
  dictionary is \<^verbatim>\<open>{}\<close>; otherwise every item stands on a line of its own, one level
  deeper, and the closing bracket on a line at the level of the opening one.
  \<open>iterencode_list\<close> and \<open>iterencode_dict\<close> are the loops over the items, at the level
  of the items.
\<close>

fun iterencode :: "nat \<Rightarrow> nat \<Rightarrow> json \<Rightarrow> string"
  and iterencode_list :: "nat \<Rightarrow> nat \<Rightarrow> json list \<Rightarrow> string"
  and iterencode_dict :: "nat \<Rightarrow> nat \<Rightarrow> (string \<times> json) list \<Rightarrow> string" where
  "iterencode ind lvl JNull = ''null''"
| "iterencode ind lvl (JBool b) = (if b then ''true'' else ''false'')"
| "iterencode ind lvl (JNum i) = int_repr i"
| "iterencode ind lvl (JStr s) = encode_basestring_ascii s"
| "iterencode ind lvl (JArr xs) =
     (if xs = [] then ''[]''
      else ''['' @ newline_indent ind (Suc lvl) @ iterencode_list ind (Suc lvl) xs @
           newline_indent ind lvl @ '']'')"
| "iterencode ind lvl (JObj kvs) =
     (if kvs = [] then ''{}''
      else ''{'' @ newline_indent ind (Suc lvl) @ iterencode_dict ind (Suc lvl) kvs @
           newline_indent ind lvl @ ''}'')"
| "iterencode_list ind lvl [] = []"
| "iterencode_list ind lvl (x # xs) =
     iterencode ind lvl x @
     (if xs = [] then [] else '','' @ newline_indent ind lvl @ iterencode_list ind lvl xs)"
| "iterencode_dict ind lvl [] = []"
| "iterencode_dict ind lvl ((k, v) # kvs) =
     encode_basestring_ascii k @ '': '' @ iterencode ind lvl v @
     (if kvs = [] then [] else '','' @ newline_indent ind lvl @ iterencode_dict ind lvl kvs)"

text \<open>The text \<^verbatim>\<open>json.dump(d, f, indent=ind)\<close> writes to \<^verbatim>\<open>f\<close>.\<close>

definition json_dump :: "py_dict \<Rightarrow> nat \<Rightarrow> string" where
  "json_dump d ind = iterencode ind 0 (JObj d)"

subsection \<open>The decoder\<close>

text \<open>
  \<^verbatim>\<open>json.loads(s)\<close> with its defaults, after \<^verbatim>\<open>json/decoder.py\<close> and \<^verbatim>\<open>json/scanner.py\<close>.
  The script never calls it: it is the parser that reads the JSON artifact back. A
  text is consumed from the left; a function returns the value it read and the rest of
  the text, or \<open>None\<close> where the decoder raises \<^verbatim>\<open>JSONDecodeError\<close>. The model also
  returns \<open>None\<close> where the decoder would build a value that \<open>json\<close> does not have: a
  float (a number with a fraction or an exponent, \<^verbatim>\<open>NaN\<close>, \<^verbatim>\<open>Infinity\<close>), and a string
  with an escaped code point of 256 or more.
\<close>

text \<open>\<^verbatim>\<open>WHITESPACE = re.compile(r'[ \t\n\r]*')\<close>.\<close>

definition whitespace :: "char \<Rightarrow> bool" where
  "whitespace c = (c = CHR '' '' \<or> c = CHR 0x09 \<or> c = CHR 0x0A \<or> c = CHR 0x0D)"

definition skip_ws :: "string \<Rightarrow> string" where
  "skip_ws s = dropWhile whitespace s"















section \<open>The result materializer: lines 156 to 174\<close>

text \<open>
  The part of the world the script changes: the files by name with their content (the
  text written, as reading the file in text mode gives it back), the names \<^verbatim>\<open>open\<close>
  refuses to open for writing, the names opened for writing so far, in order, and the
  lines the script itself printed.
\<close>

record world =
  files :: "string \<rightharpoonup> string"
  denied :: "string \<Rightarrow> bool"
  opened :: "string list"
  printed :: "string list"

text \<open>
  \<^verbatim>\<open>open(name, 'w', encoding='utf-8')\<close> creates the file or truncates it, or raises
  \<^verbatim>\<open>OSError\<close>.
\<close>

definition open_w :: "string \<Rightarrow> world \<Rightarrow> py_error + world" where
  "open_w name w =
     (if denied w name then Inl (OSError name)
      else Inr (w\<lparr>files := (files w)(name \<mapsto> []), opened := opened w @ [name]\<rparr>))"

text \<open>\<^verbatim>\<open>f.write(s)\<close> on the file opened under \<open>name\<close>: \<open>s\<close> is appended.\<close>

definition write_str :: "string \<Rightarrow> string \<Rightarrow> world \<Rightarrow> world" where
  "write_str name s w =
     w\<lparr>files := (files w)(name \<mapsto> (case files w name of None \<Rightarrow> s | Some c \<Rightarrow> c @ s))\<rparr>"

definition print_line :: "string \<Rightarrow> world \<Rightarrow> world" where
  "print_line s w = w\<lparr>printed := printed w @ [s]\<rparr>"

text \<open>
  The statements of the script run one after the other; an exception ends the run and
  leaves the world as it is at that point.
\<close>

definition and_then :: "world \<times> py_error option \<Rightarrow> (world \<Rightarrow> world \<times> py_error option) \<Rightarrow> world \<times> py_error option" where
  "and_then r f = (case r of (w, None) \<Rightarrow> f w | (w, Some e) \<Rightarrow> (w, Some e))"

text \<open>The truth value of \<^verbatim>\<open>result.json_dict\<close>: \<^verbatim>\<open>None\<close> and the empty dictionary are false.\<close>

fun truthy_dict :: "py_dict option \<Rightarrow> bool" where
  "truthy_dict None = False"
| "truthy_dict (Some []) = False"
| "truthy_dict (Some (kv # kvs)) = True"

text \<open>The truth value of \<^verbatim>\<open>result.pydantic\<close>: \<^verbatim>\<open>None\<close> is false, an object decides itself.\<close>

fun truthy_obj :: "py_object option \<Rightarrow> bool" where
  "truthy_obj None = False"
| "truthy_obj (Some obj) = obj_bool obj"

text \<open>Lines 156 to 158.\<close>

definition write_markdown :: "pipeline_result \<Rightarrow> world \<Rightarrow> world \<times> py_error option" where
  "write_markdown result w =
     (case open_w ''code_analysis_report.md'' w of
        Inl e \<Rightarrow> (w, Some e)
      | Inr w1 \<Rightarrow>
          (write_str ''code_analysis_report.md'' (raw result)
             (write_str ''code_analysis_report.md'' ''# Code Analysis Report\<newline>\<newline>'' w1),
           None))"

text \<open>Lines 160 to 163.\<close>

definition write_json :: "pipeline_result \<Rightarrow> world \<Rightarrow> world \<times> py_error option" where
  "write_json result w =
     (if truthy_dict (json_dict result) then
        (case open_w ''code_analysis_report.json'' w of
           Inl e \<Rightarrow> (w, Some e)
         | Inr w1 \<Rightarrow>
             (print_line ''JSON output saved to code_analysis_report.json''
                (write_str ''code_analysis_report.json''
                   (json_dump (case json_dict result of None \<Rightarrow> [] | Some d \<Rightarrow> d) 2) w1),
              None))
      else (w, None))"

text \<open>Lines 166 to 169.\<close>

definition write_pydantic :: "pipeline_result \<Rightarrow> world \<Rightarrow> world \<times> py_error option" where
  "write_pydantic result w =
     (if truthy_obj (pydantic result) then
        (case open_w ''code_analysis_report_pydantic.txt'' w of
           Inl e \<Rightarrow> (w, Some e)
         | Inr w1 \<Rightarrow>
             (print_line ''Pydantic output saved to code_analysis_report_pydantic.txt''
                (write_str ''code_analysis_report_pydantic.txt''
                   (case pydantic result of None \<Rightarrow> [] | Some obj \<Rightarrow> obj_str obj) w1),
              None))
      else (w, None))"

text \<open>
  Line 171: \<^verbatim>\<open>datetime.now().strftime('%Y%m%d_%H%M%S')\<close>. Every field is printed with
  leading zeros, the year in four digits and the others in two.
\<close>

record datetime =
  year :: nat
  month :: nat
  day :: nat
  hour :: nat
  minute :: nat
  second :: nat

definition pad2 :: "nat \<Rightarrow> string" where
  "pad2 n = [digit (n div 10), digit n]"

definition pad4 :: "nat \<Rightarrow> string" where
  "pad4 n = [digit (n div 1000), digit (n div 100), digit (n div 10), digit n]"

definition strftime :: "datetime \<Rightarrow> string" where
  "strftime dt =
     pad4 (year dt) @ pad2 (month dt) @ pad2 (day dt) @ ''_'' @
     pad2 (hour dt) @ pad2 (minute dt) @ pad2 (second dt)"

text \<open>The values \<^verbatim>\<open>datetime.now()\<close> can have, as far as the format reads them.\<close>

definition valid_datetime :: "datetime \<Rightarrow> bool" where
  "valid_datetime dt =
     (1000 \<le> year dt \<and> year dt \<le> 9999 \<and> 1 \<le> month dt \<and> month dt \<le> 12 \<and>
      1 \<le> day dt \<and> day dt \<le> 31 \<and> hour dt \<le> 23 \<and> minute dt \<le> 59 \<and> second dt \<le> 59)"

definition task_output_name :: "datetime \<Rightarrow> string" where
  "task_output_name now = ''task_output_'' @ strftime now @ ''.txt''"

text \<open>Lines 171 to 174.\<close>

definition write_task_output :: "host \<Rightarrow> datetime \<Rightarrow> pipeline_result \<Rightarrow> world \<Rightarrow> world \<times> py_error option" where
  "write_task_output h now result w =
     (case open_w (task_output_name now) w of
        Inl e \<Rightarrow> (w, Some e)
      | Inr w1 \<Rightarrow>
          (write_str (task_output_name now)
             (''\<newline>Token Usage:\<newline>'' @ str_usage h (token_usage result))
             (write_str (task_output_name now)
                (''Tasks Output:\<newline>'' @ str_list (repr_task_output h) (tasks_output result) @ ''\<newline>'')
                w1),
           None))"

text \<open>Lines 156 to 174, in the order of the script.\<close>

definition write_results :: "host \<Rightarrow> datetime \<Rightarrow> pipeline_result \<Rightarrow> world \<Rightarrow> world \<times> py_error option" where
  "write_results h now result w =
     and_then (and_then (and_then (write_markdown result w) (write_json result))
       (write_pydantic result)) (write_task_output h now result)"

section \<open>The whole script\<close>

text \<open>
  The script from line 23 on. \<open>kick\<close> is \<^verbatim>\<open>kickoff()\<close> of the agent framework, \<open>root\<close> is
  what stands at the workspace folder, \<open>now\<close> is the clock at line 171. An exception
  of \<^verbatim>\<open>kickoff()\<close> is not caught: it ends the script at line 152. The lines before
  line 152 construct values and write no file.
\<close>

definition main :: "host \<Rightarrow> (crew \<Rightarrow> py_error + pipeline_result) \<Rightarrow> fs_node option \<Rightarrow> datetime \<Rightarrow> world \<Rightarrow> world \<times> (py_error + pipeline_result)" where
  "main h kick root now w =
     (let python_files = glob_glob h root;
          result = kick (code_analysis_crew h python_files)
      in case result of
           Inl e \<Rightarrow> (w, Inl e)
         | Inr res \<Rightarrow>
             (case write_results h now res w of
                (w', None) \<Rightarrow> (w', Inr res)
              | (w', Some e) \<Rightarrow> (w', Inl e)))"

text \<open>The files opened for writing between two states of the world.\<close>

definition written :: "world \<Rightarrow> world \<Rightarrow> string list" where
  "written w w' = drop (length (opened w)) (opened w')"

text \<open>The lines printed between two states of the world.\<close>

definition printed_since :: "world \<Rightarrow> world \<Rightarrow> string list" where
  "printed_since w w' = drop (length (printed w)) (printed w')"

section \<open>Observations of a run\<close>

text \<open>
  The tasks in flight after a list of events: a task is in flight from the event that
  starts it to the event that records its result or its failure.
\<close>

fun flight_step :: "task_ref list \<Rightarrow> event \<Rightarrow> task_ref list" where
  "flight_step fl (Started t) = fl @ [t]"
| "flight_step fl (Recorded t r) = remove1 t fl"
| "flight_step fl (Failed t e) = remove1 t fl"

definition in_flight :: "event list \<Rightarrow> task_ref list" where
  "in_flight evs = foldl flight_step [] evs"

text \<open>The tasks that were started, in the order of their start.\<close>

fun started :: "event list \<Rightarrow> task_ref list" where
  "started [] = []"
| "started (Started t # evs) = t # started evs"
| "started (Recorded t r # evs) = started evs"
| "started (Failed t e # evs) = started evs"

text \<open>
  A list of events runs the tasks \<open>ts\<close> one at a time in their order: the start of a
  task is followed at once by the record of its result, and only then comes the start
  of the next task; the list may end early, after a result or with a failed invocation.
\<close>

fun sequential_log :: "task_ref list \<Rightarrow> event list \<Rightarrow> bool" where
  "sequential_log ts [] = True"
| "sequential_log (t # ts) (Started a # Recorded b r # evs) =
     (a = t \<and> b = t \<and> sequential_log ts evs)"
| "sequential_log (t # ts) [Started a, Failed b e] = (a = t \<and> b = t)"
| "sequential_log ts evs = False"

text \<open>The events of a run in which every task of \<open>rs\<close> was started and its result recorded.\<close>

definition pair_events :: "(task_ref \<times> task_result) list \<Rightarrow> event list" where
  "pair_events rs = concat (map (\<lambda>p. [Started (fst p), Recorded (fst p) (snd p)]) rs)"










section \<open>Values for the examples\<close>

text \<open>
  Hosts for the examples: \<^verbatim>\<open>posixpath.join\<close> or \<^verbatim>\<open>ntpath.join\<close>, no case folding, and
  plain renderings for the values whose string forms come from outside the repository.
\<close>

definition example_host :: host where
  "example_host = \<lparr>
     path_join = posixpath_join,
     normcase = (\<lambda>s. s),
     repr_str = (\<lambda>s. CHR 0x27 # s @ [CHR 0x27]),
     repr_task_output = (\<lambda>r. ''TaskOutput(raw='' @ raw r @ '')''),
     str_usage = (\<lambda>u. ''prompt_tokens='' @ pad4 (prompt_tokens u) @
                      '' completion_tokens='' @ pad4 (completion_tokens u))\<rparr>"


definition example_world :: world where
  "example_world = \<lparr>files = Map.empty, denied = (\<lambda>name. False), opened = [], printed = []\<rparr>"

definition example_now :: datetime where
  "example_now = \<lparr>year = 2025, month = 3, day = 9, hour = 14, minute = 5, second = 59\<rparr>"

text \<open>
  A workspace: files that match and do not, a hidden directory and a hidden file, a
  directory whose name matches, and a directory that cannot be listed.
\<close>

definition example_tree :: "fs_node option" where
  "example_tree = Some (Dir True
     [(''a.py'', File),
      (''notes.txt'', File),
      (''pkg'', Dir True [(''b.py'', File), (''.cache'', Dir True [(''c.py'', File)])]),
      (''.venv'', Dir True [(''d.py'', File)]),
      (''.hidden.py'', File),
      (''stubs.py'', Dir True []),
      (''locked'', Dir False [(''e.py'', File), (''sub'', Dir True [(''f.py'', File)])])])"

definition example_result :: pipeline_result where
  "example_result = \<lparr>raw = ''report-Y'', json_dict = None, pydantic = None,
     tasks_output =
       [\<lparr>raw = ''files-W'', json_dict = None, pydantic = None\<rparr>,
        \<lparr>raw = ''structure-X'', json_dict = None, pydantic = None\<rparr>,
        \<lparr>raw = ''report-Y'', json_dict = None, pydantic = None\<rparr>],
     token_usage = \<lparr>prompt_tokens = 120, completion_tokens = 45\<rparr>\<rparr>"

text \<open>A \<^verbatim>\<open>kickoff()\<close> that returns a given result, and one that raises a given error.\<close>

definition mock_kickoff :: "pipeline_result \<Rightarrow> crew \<Rightarrow> py_error + pipeline_result" where
  "mock_kickoff res c = Inr res"

definition failing_kickoff :: "py_error \<Rightarrow> crew \<Rightarrow> py_error + pipeline_result" where
  "failing_kickoff e c = Inl e"



text \<open>A result whose \<open>pydantic\<close> object is present and false.\<close>

definition falsy_pydantic_result :: pipeline_result where
  "falsy_pydantic_result =
     example_result\<lparr>json_dict := Some [], pydantic := Some \<lparr>obj_bool = False, obj_str = ''Report()''\<rparr>\<rparr>"

text \<open>
  Capabilities for the examples: one whose three agents return \<^verbatim>\<open>A\<close>, \<^verbatim>\<open>B\<close> and \<^verbatim>\<open>C\<close>,
  and one whose second agent fails.
\<close>

definition abc_capability :: capability where
  "abc_capability req =
     Inr (\<lparr>raw = (if role (req_agent req) = ''Python Code Parser'' then ''A''
                  else if role (req_agent req) = ''Structure Analyzer'' then ''B'' else ''C''),
            json_dict = None, pydantic = None\<rparr>,
          \<lparr>prompt_tokens = 10, completion_tokens = 5\<rparr>)"

definition failing_capability :: capability where
  "failing_capability req =
     (if role (req_agent req) = ''Structure Analyzer'' then Inl (CapabilityError ''provider'')
      else abc_capability req)"

section \<open>Properties\<close>

subsection \<open>The task graph\<close>

lemma crew_context_edges:
  "set (context_edges (tasks (code_analysis_crew h python_files))) =
     {(''analyze_structure_task'', ''read_code_task''),
      (''write_report_task'', ''analyze_structure_task'')}"
  by (auto simp: context_edges_def code_analysis_crew_def read_code_task_def
      analyze_structure_task_def write_report_task_def)

lemma two_edges_acyclic:
  assumes "a \<noteq> b" "b \<noteq> c" "a \<noteq> c"
  shows "acyclic {(b, a), (c, b)}"
proof -
  define rank where "rank = (\<lambda>r. if r = a then (0::nat) else if r = b then 1 else 2)"
  have "{(b, a), (c, b)} \<subseteq> (measure rank)\<inverse>"
    using assms by (auto simp: rank_def)
  moreover have "acyclic ((measure rank)\<inverse>)"
    by (simp add: wf_acyclic)
  ultimately show ?thesis
    using acyclic_subset by blast
qed

text \<open>
  C1: the crew holds exactly three tasks, \<^verbatim>\<open>read_code_task\<close>,
  \<^verbatim>\<open>analyze_structure_task\<close> and \<^verbatim>\<open>write_report_task\<close>, with three different
  identities. The first has no context, the context of the second is the first, the
  context of the third is the second. Every context refers only to tasks that stand
  earlier in the list, the list is a linear chain, and the context relation is acyclic.
\<close>

theorem task_graph_is_linear_chain:
  "tasks (code_analysis_crew h python_files) =
      [read_code_task h python_files, analyze_structure_task, write_report_task]
   \<and> length (tasks (code_analysis_crew h python_files)) = 3
   \<and> distinct (map task_id (tasks (code_analysis_crew h python_files)))
   \<and> task_context (read_code_task h python_files) = []
   \<and> task_context analyze_structure_task = [task_id (read_code_task h python_files)]
   \<and> task_context write_report_task = [task_id analyze_structure_task]
   \<and> refers_back [] (tasks (code_analysis_crew h python_files))
   \<and> linear_chain (tasks (code_analysis_crew h python_files))
   \<and> acyclic (set (context_edges (tasks (code_analysis_crew h python_files))))"
proof -
  have "acyclic (set (context_edges (tasks (code_analysis_crew h python_files))))"
    unfolding crew_context_edges by (rule two_edges_acyclic) simp_all
  then show ?thesis
    by (simp add: code_analysis_crew_def read_code_task_def analyze_structure_task_def
        write_report_task_def linear_chain_def)
qed

theorem task_graph_is_linear_chain_witness:
  "map task_id (tasks (code_analysis_crew example_host [''/ws/a.py''])) =
     [''read_code_task'', ''analyze_structure_task'', ''write_report_task'']
   \<and> map task_context (tasks (code_analysis_crew example_host [''/ws/a.py''])) =
     [[], [''read_code_task''], [''analyze_structure_task'']]
   \<and> refers_back [] (tasks (code_analysis_crew example_host [''/ws/a.py'']))
   \<and> linear_chain (tasks (code_analysis_crew example_host [''/ws/a.py'']))
   \<and> acyclic (set (context_edges (tasks (code_analysis_crew example_host [''/ws/a.py'']))))"
  using task_graph_is_linear_chain [of example_host "[''/ws/a.py'']"]
  by (simp add: code_analysis_crew_def read_code_task_def analyze_structure_task_def
      write_report_task_def)

subsection \<open>The result materializer\<close>

lemmas write_defs = write_results_def and_then_def write_markdown_def write_json_def
  write_pydantic_def write_task_output_def open_w_def write_str_def print_line_def

lemma task_output_name_neq [simp]:
  "task_output_name now \<noteq> ''code_analysis_report.md''"
  "task_output_name now \<noteq> ''code_analysis_report.json''"
  "task_output_name now \<noteq> ''code_analysis_report_pydantic.txt''"
  "''code_analysis_report.md'' \<noteq> task_output_name now"
  "''code_analysis_report.json'' \<noteq> task_output_name now"
  "''code_analysis_report_pydantic.txt'' \<noteq> task_output_name now"
  by (simp_all add: task_output_name_def)

text \<open>A run of the script that ends without an exception wrote its results.\<close>

lemma main_success:
  assumes "main h kick root now w = (w', Inr res)"
  shows "kick (code_analysis_crew h (glob_glob h root)) = Inr res"
    and "write_results h now res w = (w', None)"
  using assms
  by (auto simp: main_def Let_def split: sum.splits prod.splits option.splits)

lemma write_results_opened:
  assumes "write_results h now res w = (w', None)"
  shows "opened w' = opened w @ [''code_analysis_report.md''] @
           (if truthy_dict (json_dict res) then [''code_analysis_report.json''] else []) @
           (if truthy_obj (pydantic res) then [''code_analysis_report_pydantic.txt''] else []) @
           [task_output_name now]"
  using assms
  by (auto simp: write_defs split: if_splits sum.splits)

lemma write_results_markdown:
  assumes "write_results h now res w = (w', None)"
  shows "files w' ''code_analysis_report.md'' =
           Some (''# Code Analysis Report\<newline>\<newline>'' @ raw res)"
  using assms
  by (auto simp: write_defs split: if_splits sum.splits)

text \<open>
  C5: on every run of the script that ends without an exception, the file
  \<^verbatim>\<open>code_analysis_report.md\<close> is written, and its content is the line
  \<^verbatim>\<open># Code Analysis Report\<close>, an empty line, and the \<open>raw\<close> text of the result, and
  nothing else.
\<close>

theorem markdown_report_content:
  assumes "main h kick root now w = (w', Inr res)"
  shows "''code_analysis_report.md'' \<in> set (written w w')
       \<and> files w' ''code_analysis_report.md'' =
           Some (''# Code Analysis Report'' @ ''\<newline>'' @ ''\<newline>'' @ raw res)"
  using write_results_opened [OF main_success(2) [OF assms]]
    write_results_markdown [OF main_success(2) [OF assms]]
  by (simp add: written_def)

theorem markdown_report_content_witness:
  "''code_analysis_report.md'' \<in> set (written example_world
      (fst (main example_host (\<lambda>c. Inr example_result) example_tree example_now example_world)))
   \<and> files (fst (main example_host (\<lambda>c. Inr example_result) example_tree example_now example_world))
     ''code_analysis_report.md'' = Some ''# Code Analysis Report\<newline>\<newline>report-Y''"
proof -
  have "main example_host (\<lambda>c. Inr example_result) example_tree example_now example_world =
      (fst (main example_host (\<lambda>c. Inr example_result) example_tree example_now example_world),
       Inr example_result)"
    by (simp add: main_def write_defs example_world_def example_result_def)
  from markdown_report_content [OF this] show ?thesis
    by (simp add: example_result_def)
qed

lemma write_results_json_skipped:
  assumes "write_results h now res w = (w', err)" "\<not> truthy_dict (json_dict res)"
  shows "''code_analysis_report.json'' \<notin> set (written w w')"
    and "files w' ''code_analysis_report.json'' = files w ''code_analysis_report.json''"
    and "''JSON output saved to code_analysis_report.json'' \<notin> set (printed_since w w')"
  using assms
  by (auto simp: write_defs written_def printed_since_def split: if_splits sum.splits)

lemma write_results_pydantic_skipped:
  assumes "write_results h now res w = (w', err)" "\<not> truthy_obj (pydantic res)"
  shows "''code_analysis_report_pydantic.txt'' \<notin> set (written w w')"
    and "files w' ''code_analysis_report_pydantic.txt'' = files w ''code_analysis_report_pydantic.txt''"
    and "''Pydantic output saved to code_analysis_report_pydantic.txt'' \<notin> set (printed_since w w')"
  using assms
  by (auto simp: write_defs written_def printed_since_def split: if_splits sum.splits)

lemma write_results_json:
  assumes "write_results h now res w = (w', None)" "json_dict res = Some d" "d \<noteq> []"
  shows "files w' ''code_analysis_report.json'' = Some (json_dump d 2)"
    and "''JSON output saved to code_analysis_report.json'' \<in> set (printed_since w w')"
  using assms
  by (cases d; auto simp: write_defs written_def printed_since_def split: if_splits sum.splits)+

lemma write_results_task_output:
  assumes "write_results h now res w = (w', None)"
  shows "files w' (task_output_name now) =
     Some (''Tasks Output:\<newline>'' @ str_list (repr_task_output h) (tasks_output res) @ ''\<newline>'' @
           ''\<newline>Token Usage:\<newline>'' @ str_usage h (token_usage res))"
  using assms
  by (auto simp: write_defs split: if_splits sum.splits)

lemma main_outcome:
  assumes "main h kick root now w = (w', out)"
    and "kick (code_analysis_crew h (glob_glob h root)) = Inr res"
  shows "\<exists>err. write_results h now res w = (w', err)"
  using assms
  by (auto simp: main_def Let_def split: sum.splits prod.splits option.splits)


lemma digit_cases: "d < 10 \<Longrightarrow> d = 0 \<or> d = 1 \<or> d = 2 \<or> d = 3 \<or> d = 4 \<or> d = 5 \<or> d = 6 \<or> d = 7 \<or> d = 8 \<or> d = (9::nat)"
  by arith

lemma of_char_digit: "(of_char (digit d) :: nat) = 48 + d mod 10"
proof -
  have "d mod 10 < 10" by simp
  from digit_cases [OF this] show ?thesis
    by (auto simp: digit_def)
qed

lemma digit_is_digit: "digit d \<in> set ''0123456789''"
proof -
  have "d mod 10 < 10" by simp
  from digit_cases [OF this] show ?thesis
    by (auto simp: digit_def)
qed

lemma digits_value_pad2: "n < 100 \<Longrightarrow> digits_value (pad2 n) = n"
  by (simp add: digits_value_def pad2_def of_char_digit)

lemma div_step: "(n::nat) div 100 = n div 10 div 10" "(n::nat) div 1000 = n div 10 div 10 div 10"
  by (simp_all add: div_mult2_eq[symmetric])

lemma digits_value_pad4: "n < 10000 \<Longrightarrow> digits_value (pad4 n) = n"
proof -
  assume "n < 10000"
  then have "n div 10 div 10 div 10 < 10" by (simp add: div_mult2_eq[symmetric])
  then have "n div 10 div 10 div 10 mod 10 = n div 10 div 10 div 10" by simp
  then show ?thesis
    by (simp add: digits_value_def pad4_def of_char_digit div_step)
qed

lemma strftime_shape:
  "length (strftime dt) = 15" "strftime dt ! 8 = CHR ''_''"
  "take 4 (strftime dt) = pad4 (year dt)"
  "take 2 (drop 4 (strftime dt)) = pad2 (month dt)"
  "take 2 (drop 6 (strftime dt)) = pad2 (day dt)"
  "take 2 (drop 9 (strftime dt)) = pad2 (hour dt)"
  "take 2 (drop 11 (strftime dt)) = pad2 (minute dt)"
  "take 2 (drop 13 (strftime dt)) = pad2 (second dt)"
  by (simp_all add: strftime_def pad2_def pad4_def)

lemma strftime_digits:
  "list_all (\<lambda>c. c \<in> set ''0123456789'') (take 8 (strftime dt) @ drop 9 (strftime dt))"
  using digit_is_digit by (simp add: strftime_def pad2_def pad4_def)

lemma main_mock_kickoff:
  "main example_host (mock_kickoff res) root now example_world =
     (fst (main example_host (mock_kickoff res) root now example_world), Inr res)"
  by (simp add: main_def mock_kickoff_def write_defs example_world_def split: sum.splits)

subsection \<open>Reading back the text of the encoder\<close>


















lemma char_eq_iff_nat: "(c = d) = ((of_char c :: nat) = of_char d)"
  by simp



lemma encode_basestring_ascii_hd:
  "encode_basestring_ascii s = CHR 0x22 # concat (map escape_ascii s) @ [CHR 0x22]"
  by (simp add: encode_basestring_ascii_def)

lemma skip_ws_indent [simp]:
  "skip_ws (CHR 0x0A # replicate k CHR '' '' @ s) = skip_ws s"
  by (induction k) (simp_all add: skip_ws_def whitespace_def)

lemma skip_ws_space [simp]: "skip_ws (CHR '' '' # s) = skip_ws s"
  by (simp add: skip_ws_def whitespace_def)

lemma skip_ws_id: "\<not> whitespace c \<Longrightarrow> skip_ws (c # s) = c # s"
  by (simp add: skip_ws_def)





lemma skip_ws_punct [simp]:
  "skip_ws (CHR '','' # s) = CHR '','' # s"
  "skip_ws (CHR '']'' # s) = CHR '']'' # s"
  "skip_ws (CHR ''}'' # s) = CHR ''}'' # s"
  "skip_ws (CHR 0x22 # s) = CHR 0x22 # s"
  by (simp_all add: skip_ws_id whitespace_def)























subsection \<open>The JSON artifact\<close>








subsection \<open>The task output file and the truth tests\<close>

text \<open>
  C7: on every run of the script that ends without an exception, whatever \<open>json_dict\<close>
  and \<open>pydantic\<close> are, the file \<^verbatim>\<open>task_output_<timestamp>.txt\<close> is written. It holds the
  line \<^verbatim>\<open>Tasks Output:\<close>, the string form of the list \<open>tasks_output\<close>, an empty line, the
  line \<^verbatim>\<open>Token Usage:\<close> and the string form of \<open>token_usage\<close>. For a date of the clock
  the time stamp has fifteen characters: the year in four digits, the month and the day
  in two digits each, an underscore, and the hour, the minute and the second in two
  digits each.
\<close>

theorem task_output_file_always_written:
  assumes "main h kick root now w = (w', Inr res)"
  shows "task_output_name now \<in> set (written w w')
       \<and> task_output_name now = ''task_output_'' @ strftime now @ ''.txt''
       \<and> files w' (task_output_name now) =
           Some (''Tasks Output:\<newline>'' @ str_list (repr_task_output h) (tasks_output res) @
                 ''\<newline>'' @ ''\<newline>Token Usage:\<newline>'' @ str_usage h (token_usage res))
       \<and> (valid_datetime now \<longrightarrow>
             length (strftime now) = 15
             \<and> strftime now ! 8 = CHR ''_''
             \<and> list_all (\<lambda>c. c \<in> set ''0123456789'') (take 8 (strftime now) @ drop 9 (strftime now))
             \<and> digits_value (take 4 (strftime now)) = year now
             \<and> digits_value (take 2 (drop 4 (strftime now))) = month now
             \<and> digits_value (take 2 (drop 6 (strftime now))) = day now
             \<and> digits_value (take 2 (drop 9 (strftime now))) = hour now
             \<and> digits_value (take 2 (drop 11 (strftime now))) = minute now
             \<and> digits_value (take 2 (drop 13 (strftime now))) = second now)"
proof -
  note run = main_success(2) [OF assms]
  have "task_output_name now \<in> set (written w w')"
    using write_results_opened [OF run] by (simp add: written_def)
  moreover have "valid_datetime now \<longrightarrow>
             digits_value (take 4 (strftime now)) = year now
             \<and> digits_value (take 2 (drop 4 (strftime now))) = month now
             \<and> digits_value (take 2 (drop 6 (strftime now))) = day now
             \<and> digits_value (take 2 (drop 9 (strftime now))) = hour now
             \<and> digits_value (take 2 (drop 11 (strftime now))) = minute now
             \<and> digits_value (take 2 (drop 13 (strftime now))) = second now"
    unfolding strftime_shape
    by (simp add: valid_datetime_def digits_value_pad2 digits_value_pad4)
  ultimately show ?thesis
    using write_results_task_output [OF run] strftime_shape(1,2) [of now] strftime_digits [of now]
    by (simp add: task_output_name_def)
qed

theorem task_output_file_always_written_witness:
  "valid_datetime example_now
   \<and> task_output_name example_now = ''task_output_20250309_140559.txt''
   \<and> ''task_output_20250309_140559.txt'' \<in> set (written example_world
        (fst (main example_host (mock_kickoff example_result) example_tree example_now example_world)))
   \<and> files (fst (main example_host (mock_kickoff example_result) example_tree example_now example_world))
        ''task_output_20250309_140559.txt'' =
       Some (''Tasks Output:\<newline>'' @
             ''[TaskOutput(raw=files-W), TaskOutput(raw=structure-X), TaskOutput(raw=report-Y)]\<newline>'' @
             ''\<newline>Token Usage:\<newline>'' @
             ''prompt_tokens=0120 completion_tokens=0045'')
   \<and> digits_value (take 4 (strftime example_now)) = 2025"
proof -
  have name: "task_output_name example_now = ''task_output_20250309_140559.txt''"
    by (simp add: task_output_name_def strftime_def pad2_def pad4_def digit_def example_now_def)
  have valid: "valid_datetime example_now"
    by (simp add: valid_datetime_def example_now_def)
  show ?thesis
    using task_output_file_always_written
        [OF main_mock_kickoff [of example_result example_tree example_now]] valid
    unfolding name
    by (simp add: example_result_def example_host_def str_list_def pad4_def digit_def example_now_def)
qed

text \<open>
  C10: the two checks of the script are truth tests. When \<^verbatim>\<open>kickoff()\<close> returns a result
  whose \<open>json_dict\<close> is the empty dictionary, which is false in Python, the file
  \<^verbatim>\<open>code_analysis_report.json\<close> is not written; and when \<open>pydantic\<close> is false (absent, or
  an object whose truth value is false) the file \<^verbatim>\<open>code_analysis_report_pydantic.txt\<close> is
  not written. Both files are left as they were.
\<close>

theorem presence_checks_are_truth_tests:
  assumes "main h kick root now w = (w', out)"
    and "kick (code_analysis_crew h (glob_glob h root)) = Inr res"
  shows "\<not> truthy_dict (Some [])
       \<and> (json_dict res = Some [] \<longrightarrow>
             ''code_analysis_report.json'' \<notin> set (written w w')
             \<and> files w' ''code_analysis_report.json'' = files w ''code_analysis_report.json'')
       \<and> (\<not> truthy_obj (pydantic res) \<longrightarrow>
             ''code_analysis_report_pydantic.txt'' \<notin> set (written w w')
             \<and> files w' ''code_analysis_report_pydantic.txt'' =
                 files w ''code_analysis_report_pydantic.txt'')"
proof -
  from main_outcome [OF assms] obtain err where run: "write_results h now res w = (w', err)"
    by blast
  show ?thesis
    using write_results_json_skipped(1,2) [OF run] write_results_pydantic_skipped(1,2) [OF run]
    by auto
qed

theorem presence_checks_are_truth_tests_witness:
  "json_dict falsy_pydantic_result = Some []
   \<and> pydantic falsy_pydantic_result = Some \<lparr>obj_bool = False, obj_str = ''Report()''\<rparr>
   \<and> snd (main example_host (mock_kickoff falsy_pydantic_result) example_tree example_now example_world)
       = Inr falsy_pydantic_result
   \<and> ''code_analysis_report.json'' \<notin> set (written example_world
        (fst (main example_host (mock_kickoff falsy_pydantic_result) example_tree example_now example_world)))
   \<and> ''code_analysis_report_pydantic.txt'' \<notin> set (written example_world
        (fst (main example_host (mock_kickoff falsy_pydantic_result) example_tree example_now example_world)))
   \<and> files (fst (main example_host (mock_kickoff falsy_pydantic_result) example_tree example_now example_world))
        ''code_analysis_report.json'' = None
   \<and> files (fst (main example_host (mock_kickoff falsy_pydantic_result) example_tree example_now example_world))
        ''code_analysis_report_pydantic.txt'' = None"
proof -
  have kick: "mock_kickoff falsy_pydantic_result
      (code_analysis_crew example_host (glob_glob example_host example_tree))
      = Inr falsy_pydantic_result"
    by (simp add: mock_kickoff_def)
  have res: "snd (main example_host (mock_kickoff falsy_pydantic_result) example_tree example_now example_world)
       = Inr falsy_pydantic_result"
    using main_mock_kickoff [of falsy_pydantic_result example_tree example_now]
    by (metis snd_conv)
  show ?thesis
    using presence_checks_are_truth_tests
        [OF main_mock_kickoff [of falsy_pydantic_result example_tree example_now] kick] res
    by (simp add: falsy_pydantic_result_def example_result_def example_world_def)
qed

subsection \<open>The pipeline executor\<close>

lemma execute_tasks_failed:
  assumes "execute_tasks cap ts s = (s', err)"
    and "Failed t e \<in> set (events s')" "Failed t e \<notin> set (events s)"
  shows "err = Some e"
  using assms
proof (induction ts arbitrary: s)
  case Nil
  then show ?case by simp
next
  case (Cons a ts)
  show ?case
  proof (cases "context_results (recorded s) (task_context a)")
    case None
    with Cons.prems show ?thesis by simp
  next
    case (Some outs)
    let ?req = "\<lparr>req_agent = task_agent a, req_description = description a,
                  req_expected_output = expected_output a, req_context = outs\<rparr>"
    show ?thesis
    proof (cases "cap ?req")
      case (Inl e')
      with Some Cons.prems show ?thesis by (auto simp: Let_def)
    next
      case (Inr p)
      obtain out u where p: "p = (out, u)" by (cases p)
      let ?s2 = "s\<lparr>events := events s @ [Started (task_id a)]\<rparr>
                  \<lparr>recorded := recorded s @ [(task_id a, out)],
                   used := add_usage (used s) u,
                   events := events s @ [Started (task_id a), Recorded (task_id a) out]\<rparr>"
      from Some Inr p Cons.prems(1) have run: "execute_tasks cap ts ?s2 = (s', err)"
        by (simp add: Let_def)
      from Cons.prems(3) have "Failed t e \<notin> set (events ?s2)" by simp
      from Cons.IH [OF run Cons.prems(2) this] show ?thesis .
    qed
  qed
qed

lemma execute_tasks_log:
  assumes "execute_tasks cap ts s = (s', err)"
  shows "\<exists>new. events s' = events s @ new \<and> sequential_log (map task_id ts) new"
  using assms
proof (induction ts arbitrary: s)
  case Nil
  then show ?case by simp
next
  case (Cons a ts)
  show ?case
  proof (cases "context_results (recorded s) (task_context a)")
    case None
    with Cons.prems show ?thesis by simp
  next
    case (Some outs)
    let ?req = "\<lparr>req_agent = task_agent a, req_description = description a,
                  req_expected_output = expected_output a, req_context = outs\<rparr>"
    show ?thesis
    proof (cases "cap ?req")
      case (Inl e')
      with Some Cons.prems show ?thesis by (auto simp: Let_def)
    next
      case (Inr p)
      obtain out u where p: "p = (out, u)" by (cases p)
      let ?s2 = "s\<lparr>events := events s @ [Started (task_id a)]\<rparr>
                  \<lparr>recorded := recorded s @ [(task_id a, out)],
                   used := add_usage (used s) u,
                   events := events s @ [Started (task_id a), Recorded (task_id a) out]\<rparr>"
      from Some Inr p Cons.prems(1) have run: "execute_tasks cap ts ?s2 = (s', err)"
        by (simp add: Let_def)
      from Cons.IH [OF run] obtain new where
        "events s' = events ?s2 @ new" "sequential_log (map task_id ts) new" by blast
      then have "events s' = events s @ (Started (task_id a) # Recorded (task_id a) out # new)
          \<and> sequential_log (map task_id (a # ts)) (Started (task_id a) # Recorded (task_id a) out # new)"
        by simp
      then show ?thesis by blast
    qed
  qed
qed

lemma execute_tasks_completed:
  assumes "execute_tasks cap ts s = (s', None)"
  shows "\<exists>rs. recorded s' = recorded s @ rs \<and> map fst rs = map task_id ts
           \<and> events s' = events s @ pair_events rs"
  using assms
proof (induction ts arbitrary: s)
  case Nil
  then show ?case by (simp add: pair_events_def)
next
  case (Cons a ts)
  show ?case
  proof (cases "context_results (recorded s) (task_context a)")
    case None
    with Cons.prems show ?thesis by simp
  next
    case (Some outs)
    let ?req = "\<lparr>req_agent = task_agent a, req_description = description a,
                  req_expected_output = expected_output a, req_context = outs\<rparr>"
    show ?thesis
    proof (cases "cap ?req")
      case (Inl e')
      with Some Cons.prems show ?thesis by (auto simp: Let_def)
    next
      case (Inr p)
      obtain out u where p: "p = (out, u)" by (cases p)
      let ?s2 = "s\<lparr>events := events s @ [Started (task_id a)]\<rparr>
                  \<lparr>recorded := recorded s @ [(task_id a, out)],
                   used := add_usage (used s) u,
                   events := events s @ [Started (task_id a), Recorded (task_id a) out]\<rparr>"
      from Some Inr p Cons.prems(1) have run: "execute_tasks cap ts ?s2 = (s', None)"
        by (simp add: Let_def)
      from Cons.IH [OF run] obtain rs where rs:
        "recorded s' = recorded ?s2 @ rs" "map fst rs = map task_id ts"
        "events s' = events ?s2 @ pair_events rs" by blast
      then have "recorded s' = recorded s @ ((task_id a, out) # rs)
          \<and> map fst ((task_id a, out) # rs) = map task_id (a # ts)
          \<and> events s' = events s @ pair_events ((task_id a, out) # rs)"
        by (simp add: pair_events_def)
      then show ?thesis by blast
    qed
  qed
qed


lemma sequential_in_flight:
  "sequential_log ts evs \<Longrightarrow> length (in_flight (take n evs)) \<le> 1"
  by (induction ts evs arbitrary: n rule: sequential_log.induct)
     (auto simp: in_flight_def take_Cons split: nat.splits)

lemma sequential_started:
  "sequential_log ts evs \<Longrightarrow> \<exists>k. started evs = take k ts"
proof (induction ts evs rule: sequential_log.induct)
  case (1 ts)
  have "started [] = take 0 ts" by simp
  then show ?case by blast
next
  case (2 t ts a b r evs)
  then obtain k where "started evs = take k ts" by auto
  with 2 have "started (Started a # Recorded b r # evs) = take (Suc k) (t # ts)" by simp
  then show ?case by blast
next
  case (3 t ts a b e)
  then have "started [Started a, Failed b e] = take (Suc 0) (t # ts)" by simp
  then show ?case by blast
qed simp_all

lemma started_pair_events: "started (pair_events rs) = map fst rs"
  by (induction rs) (simp_all add: pair_events_def)

lemma pair_events_Cons:
  "pair_events (p # rs) = Started (fst p) # Recorded (fst p) (snd p) # pair_events rs"
  by (simp add: pair_events_def)

lemma pair_events_empty: "(pair_events rs = []) = (rs = [])"
  by (cases rs) (simp_all add: pair_events_def)

lemma last_pair_events:
  "rs \<noteq> [] \<Longrightarrow> last (pair_events rs) = Recorded (fst (last rs)) (snd (last rs))"
proof (induction rs)
  case Nil
  then show ?case by simp
next
  case (Cons p rs)
  show ?case
  proof (cases "rs = []")
    case True
    then show ?thesis by (simp add: pair_events_def)
  next
    case False
    with Cons show ?thesis by (simp add: pair_events_Cons pair_events_empty)
  qed
qed

lemma run_crew_completed:
  assumes "kickoff cap c = Inr res"
  shows "\<exists>rs. rs \<noteq> [] \<and> map fst rs = map task_id (tasks c) \<and> fst (run_crew cap c) = pair_events rs
           \<and> tasks_output res = map snd rs \<and> raw res = raw (snd (last rs))
           \<and> json_dict res = json_dict (snd (last rs)) \<and> pydantic res = pydantic (snd (last rs))"
proof -
  obtain s' err where ex: "execute_tasks cap (tasks c) init_state = (s', err)"
    by (cases "execute_tasks cap (tasks c) init_state")
  with assms have err: "err = None" and ne: "recorded s' \<noteq> []"
    by (auto simp: kickoff_def run_crew_def Let_def split: process.splits option.splits if_splits)
  from execute_tasks_completed [OF ex [unfolded err]] obtain rs where rs:
    "recorded s' = recorded init_state @ rs" "map fst rs = map task_id (tasks c)"
    "events s' = events init_state @ pair_events rs" by blast
  then have "recorded s' = rs" "events s' = pair_events rs" by (simp_all add: init_state_def)
  with assms ex err ne rs(2) show ?thesis
    by (auto simp: kickoff_def run_crew_def Let_def split: process.splits)
qed

lemma abc_run:
  "run_crew abc_capability (code_analysis_crew h python_files) =
     ([Started ''read_code_task'',
       Recorded ''read_code_task'' \<lparr>raw = ''A'', json_dict = None, pydantic = None\<rparr>,
       Started ''analyze_structure_task'',
       Recorded ''analyze_structure_task'' \<lparr>raw = ''B'', json_dict = None, pydantic = None\<rparr>,
       Started ''write_report_task'',
       Recorded ''write_report_task'' \<lparr>raw = ''C'', json_dict = None, pydantic = None\<rparr>],
      Inr \<lparr>raw = ''C'', json_dict = None, pydantic = None,
        tasks_output =
          [\<lparr>raw = ''A'', json_dict = None, pydantic = None\<rparr>,
           \<lparr>raw = ''B'', json_dict = None, pydantic = None\<rparr>,
           \<lparr>raw = ''C'', json_dict = None, pydantic = None\<rparr>],
        token_usage = \<lparr>prompt_tokens = 30, completion_tokens = 15\<rparr>\<rparr>)"
  by (simp add: run_crew_def code_analysis_crew_def read_code_task_def
      analyze_structure_task_def write_report_task_def code_reader_agent_def
      structure_analyzer_agent_def report_writer_agent_def abc_capability_def
      init_state_def add_usage_def Let_def)

lemma failing_run:
  "run_crew failing_capability (code_analysis_crew h python_files) =
     ([Started ''read_code_task'',
       Recorded ''read_code_task'' \<lparr>raw = ''A'', json_dict = None, pydantic = None\<rparr>,
       Started ''analyze_structure_task'',
       Failed ''analyze_structure_task'' (CapabilityError ''provider'')],
      Inl (CapabilityError ''provider''))"
  by (simp add: run_crew_def code_analysis_crew_def read_code_task_def
      analyze_structure_task_def write_report_task_def code_reader_agent_def
      structure_analyzer_agent_def report_writer_agent_def abc_capability_def
      failing_capability_def init_state_def add_usage_def Let_def)

text \<open>
  C2: in every run of the executor the events run the tasks of the crew one at a time
  in their declared order: the start of a task is followed at once by the record of its
  result, and the next task starts only after that. After every prefix of the events
  at most one task is in flight. The tasks started are a prefix of the declared tasks,
  all of them when the run completes. The declared order of the crew of the script is
  \<^verbatim>\<open>read_code_task\<close>, \<^verbatim>\<open>analyze_structure_task\<close>, \<^verbatim>\<open>write_report_task\<close>.
\<close>

theorem executor_runs_tasks_one_at_a_time:
  "sequential_log (map task_id (tasks c)) (fst (run_crew cap c))
   \<and> length (in_flight (take n (fst (run_crew cap c)))) \<le> 1
   \<and> (\<exists>k. started (fst (run_crew cap c)) = take k (map task_id (tasks c)))
   \<and> (kickoff cap c = Inr res \<longrightarrow> started (fst (run_crew cap c)) = map task_id (tasks c))
   \<and> map task_id (tasks (code_analysis_crew h python_files)) =
       [''read_code_task'', ''analyze_structure_task'', ''write_report_task'']"
proof -
  obtain s' err where ex: "execute_tasks cap (tasks c) init_state = (s', err)"
    by (cases "execute_tasks cap (tasks c) init_state")
  from execute_tasks_log [OF ex] have "sequential_log (map task_id (tasks c)) (events s')"
    by (auto simp: init_state_def)
  moreover have "fst (run_crew cap c) = events s'"
    using ex by (auto simp: run_crew_def Let_def split: process.splits option.splits)
  ultimately have seq: "sequential_log (map task_id (tasks c)) (fst (run_crew cap c))"
    by simp
  have "kickoff cap c = Inr res \<longrightarrow> started (fst (run_crew cap c)) = map task_id (tasks c)"
    using run_crew_completed [of cap c res] started_pair_events by auto
  then show ?thesis
    using seq sequential_in_flight [OF seq] sequential_started [OF seq]
    by (simp add: code_analysis_crew_def read_code_task_def analyze_structure_task_def
        write_report_task_def)
qed

theorem executor_runs_tasks_one_at_a_time_witness:
  "fst (run_crew abc_capability (code_analysis_crew example_host [''/ws/a.py''])) =
     [Started ''read_code_task'',
      Recorded ''read_code_task'' \<lparr>raw = ''A'', json_dict = None, pydantic = None\<rparr>,
      Started ''analyze_structure_task'',
      Recorded ''analyze_structure_task'' \<lparr>raw = ''B'', json_dict = None, pydantic = None\<rparr>,
      Started ''write_report_task'',
      Recorded ''write_report_task'' \<lparr>raw = ''C'', json_dict = None, pydantic = None\<rparr>]
   \<and> sequential_log (map task_id (tasks (code_analysis_crew example_host [''/ws/a.py''])))
       (fst (run_crew abc_capability (code_analysis_crew example_host [''/ws/a.py''])))
   \<and> length (in_flight (take 3 (fst (run_crew abc_capability (code_analysis_crew example_host [''/ws/a.py''])))))
       \<le> 1
   \<and> started (fst (run_crew abc_capability (code_analysis_crew example_host [''/ws/a.py'']))) =
       map task_id (tasks (code_analysis_crew example_host [''/ws/a.py'']))
   \<and> map task_id (tasks (code_analysis_crew example_host [''/ws/a.py''])) =
       [''read_code_task'', ''analyze_structure_task'', ''write_report_task'']"
proof -
  note inst = executor_runs_tasks_one_at_a_time
      [of "code_analysis_crew example_host [''/ws/a.py'']" abc_capability 3
        "projr (snd (run_crew abc_capability (code_analysis_crew example_host [''/ws/a.py''])))"
        example_host "[''/ws/a.py'']"]
  have completed: "kickoff abc_capability (code_analysis_crew example_host [''/ws/a.py'']) =
      Inr (projr (snd (run_crew abc_capability (code_analysis_crew example_host [''/ws/a.py'']))))"
    unfolding kickoff_def abc_run by simp
  have evs: "fst (run_crew abc_capability (code_analysis_crew example_host [''/ws/a.py''])) =
     [Started ''read_code_task'',
      Recorded ''read_code_task'' \<lparr>raw = ''A'', json_dict = None, pydantic = None\<rparr>,
      Started ''analyze_structure_task'',
      Recorded ''analyze_structure_task'' \<lparr>raw = ''B'', json_dict = None, pydantic = None\<rparr>,
      Started ''write_report_task'',
      Recorded ''write_report_task'' \<lparr>raw = ''C'', json_dict = None, pydantic = None\<rparr>]"
    unfolding abc_run by simp
  note s1 = inst [THEN conjunct1]
  note s2 = inst [THEN conjunct2, THEN conjunct1]
  note s4 = inst [THEN conjunct2, THEN conjunct2, THEN conjunct2, THEN conjunct1]
  note s5 = inst [THEN conjunct2, THEN conjunct2, THEN conjunct2, THEN conjunct2]
  from s4 completed have s4': "started (fst (run_crew abc_capability (code_analysis_crew example_host [''/ws/a.py'']))) =
       map task_id (tasks (code_analysis_crew example_host [''/ws/a.py'']))"
    by (rule mp)
  from evs s1 s2 s4' s5 show ?thesis
    by (intro conjI)
qed

text \<open>
  C3: when a run of the executor completes, the crew has a last task, there is one
  result for every task, and the \<open>raw\<close> of the pipeline result is the \<open>raw\<close> of the
  last of them, which is the result recorded last, for the last task of the crew.
\<close>

theorem pipeline_raw_is_last_task_raw:
  assumes "kickoff cap c = Inr res"
  shows "tasks c \<noteq> []
       \<and> length (tasks_output res) = length (tasks c)
       \<and> raw res = raw (last (tasks_output res))
       \<and> last (fst (run_crew cap c)) =
           Recorded (task_id (last (tasks c))) (last (tasks_output res))"
proof -
  from run_crew_completed [OF assms] obtain rs where rs:
    "rs \<noteq> []" "map fst rs = map task_id (tasks c)" "fst (run_crew cap c) = pair_events rs"
    "tasks_output res = map snd rs" "raw res = raw (snd (last rs))" by blast
  from rs(1,2) have ne: "tasks c \<noteq> []" by auto
  have "fst (last rs) = last (map fst rs)" using rs(1) by (simp add: last_map)
  also have "\<dots> = task_id (last (tasks c))" using rs(2) ne by (simp add: last_map)
  finally have "fst (last rs) = task_id (last (tasks c))" .
  moreover have "length (map snd rs) = length (map fst rs)" by simp
  ultimately show ?thesis
    using rs ne last_pair_events [OF rs(1)] by (simp add: last_map)
qed

theorem pipeline_raw_is_last_task_raw_witness:
  "kickoff abc_capability (code_analysis_crew example_host [''/ws/a.py'']) =
     Inr \<lparr>raw = ''C'', json_dict = None, pydantic = None,
        tasks_output =
          [\<lparr>raw = ''A'', json_dict = None, pydantic = None\<rparr>,
           \<lparr>raw = ''B'', json_dict = None, pydantic = None\<rparr>,
           \<lparr>raw = ''C'', json_dict = None, pydantic = None\<rparr>],
        token_usage = \<lparr>prompt_tokens = 30, completion_tokens = 15\<rparr>\<rparr>
   \<and> raw \<lparr>raw = ''C'', json_dict = None, pydantic = None,
        tasks_output =
          [\<lparr>raw = ''A'', json_dict = None, pydantic = None\<rparr>,
           \<lparr>raw = ''B'', json_dict = None, pydantic = None\<rparr>,
           \<lparr>raw = ''C'', json_dict = None, pydantic = None\<rparr>],
        token_usage = \<lparr>prompt_tokens = 30, completion_tokens = 15\<rparr>\<rparr> = ''C''
   \<and> last (fst (run_crew abc_capability (code_analysis_crew example_host [''/ws/a.py'']))) =
       Recorded ''write_report_task'' \<lparr>raw = ''C'', json_dict = None, pydantic = None\<rparr>"
proof -
  have completed: "kickoff abc_capability (code_analysis_crew example_host [''/ws/a.py'']) =
     Inr \<lparr>raw = ''C'', json_dict = None, pydantic = None,
        tasks_output =
          [\<lparr>raw = ''A'', json_dict = None, pydantic = None\<rparr>,
           \<lparr>raw = ''B'', json_dict = None, pydantic = None\<rparr>,
           \<lparr>raw = ''C'', json_dict = None, pydantic = None\<rparr>],
        token_usage = \<lparr>prompt_tokens = 30, completion_tokens = 15\<rparr>\<rparr>"
    unfolding kickoff_def abc_run by simp
  note inst = pipeline_raw_is_last_task_raw [OF completed]
  have "task_id (last (tasks (code_analysis_crew example_host [''/ws/a.py'']))) = ''write_report_task''"
    by (simp add: code_analysis_crew_def write_report_task_def)
  with inst [THEN conjunct2, THEN conjunct2, THEN conjunct2]
  have "last (fst (run_crew abc_capability (code_analysis_crew example_host [''/ws/a.py'']))) =
       Recorded ''write_report_task'' \<lparr>raw = ''C'', json_dict = None, pydantic = None\<rparr>"
    by simp
  with completed show ?thesis
    by simp
qed

text \<open>
  C4: an exception of \<^verbatim>\<open>kickoff()\<close> ends the script at line 152 with that exception, and
  the world is as it was: no file is written. With the executor of the specification,
  an agent invocation that fails makes \<^verbatim>\<open>kickoff()\<close> raise its error, so the run ends
  with that error, without a pipeline result and without any file written.
\<close>

theorem agent_failure_aborts_without_artifacts:
  "(kick (code_analysis_crew h (glob_glob h root)) = Inl e \<longrightarrow>
      main h kick root now w = (w, Inl e))
   \<and> (Failed t e \<in> set (fst (run_crew cap (code_analysis_crew h (glob_glob h root)))) \<longrightarrow>
        kickoff cap (code_analysis_crew h (glob_glob h root)) = Inl e
        \<and> main h (kickoff cap) root now w = (w, Inl e)
        \<and> written w (fst (main h (kickoff cap) root now w)) = [])"
proof -
  let ?c = "code_analysis_crew h (glob_glob h root)"
  have gen: "\<And>k. k ?c = Inl e \<Longrightarrow> main h k root now w = (w, Inl e)"
    by (simp add: main_def Let_def)
  have "kickoff cap ?c = Inl e" if f: "Failed t e \<in> set (fst (run_crew cap ?c))"
  proof -
    obtain s' err where ex: "execute_tasks cap (tasks ?c) init_state = (s', err)"
      by (cases "execute_tasks cap (tasks ?c) init_state")
    have ev: "fst (run_crew cap ?c) = events s'"
      using ex by (auto simp: run_crew_def Let_def split: process.splits option.splits)
    have "Failed t e \<notin> set (events init_state)" by (simp add: init_state_def)
    from execute_tasks_failed [OF ex f [unfolded ev] this] have "err = Some e" .
    with ex show ?thesis
      by (simp add: kickoff_def run_crew_def split: process.splits)
  qed
  with gen show ?thesis by (auto simp: written_def)
qed

theorem agent_failure_aborts_without_artifacts_witness:
  "Failed ''analyze_structure_task'' (CapabilityError ''provider'') \<in>
     set (fst (run_crew failing_capability
       (code_analysis_crew example_host (glob_glob example_host example_tree))))
   \<and> main example_host (kickoff failing_capability) example_tree example_now example_world =
       (example_world, Inl (CapabilityError ''provider''))
   \<and> main example_host (failing_kickoff (OSError ''network'')) example_tree example_now example_world =
       (example_world, Inl (OSError ''network''))"
proof -
  have failed: "Failed ''analyze_structure_task'' (CapabilityError ''provider'') \<in>
     set (fst (run_crew failing_capability
       (code_analysis_crew example_host (glob_glob example_host example_tree))))"
    by (simp add: failing_run)
  have raised: "failing_kickoff (OSError ''network'')
      (code_analysis_crew example_host (glob_glob example_host example_tree)) =
      Inl (OSError ''network'')"
    by (simp add: failing_kickoff_def)
  note raise_case = agent_failure_aborts_without_artifacts
      [where kick = "failing_kickoff (OSError ''network'')" and h = example_host
        and root = example_tree and e = "OSError ''network''" and now = example_now
        and w = example_world and t = "''analyze_structure_task''"
        and cap = failing_capability, THEN conjunct1]
  note fail_case = agent_failure_aborts_without_artifacts
      [where kick = "kickoff failing_capability" and h = example_host
        and root = example_tree and e = "CapabilityError ''provider''" and now = example_now
        and w = example_world and t = "''analyze_structure_task''"
        and cap = failing_capability, THEN conjunct2]
  note m1 = mp [OF raise_case raised]
  note m2 = mp [OF fail_case failed, THEN conjunct2, THEN conjunct1]
  from failed m2 m1 show ?thesis
    by (intro conjI)
qed

subsection \<open>FileSet discovery\<close>

text \<open>
  C9: when the workspace folder does not exist or is not a directory, \<^verbatim>\<open>glob.glob\<close>
  returns the empty list: the error of the directory listing is caught inside
  \<^verbatim>\<open>glob\<close>. The script goes on: it builds the crew with the empty list, whose string
  form in the description is \<^verbatim>\<open>[]\<close>, calls \<^verbatim>\<open>kickoff()\<close> and writes what it returns.
\<close>

theorem missing_root_gives_empty_file_set:
  assumes "root = None \<or> root = Some File"
  shows "iglob h root = []
       \<and> glob_glob h root = []
       \<and> str_list (repr_str h) (glob_glob h root) = ''[]''
       \<and> main h kick root now w =
           (case kick (code_analysis_crew h []) of
              Inl e \<Rightarrow> (w, Inl e)
            | Inr res \<Rightarrow>
                (case write_results h now res w of
                   (w', None) \<Rightarrow> (w', Inr res)
                 | (w', Some e) \<Rightarrow> (w', Inl e)))"
proof -
  from assms have "iglob h root = []"
    by (auto simp: iglob_def glob2_def)
  then show ?thesis
    by (simp add: glob_glob_def main_def Let_def str_list_def)
qed

theorem missing_root_gives_empty_file_set_witness:
  "glob_glob example_host None = []
   \<and> glob_glob example_host (Some File) = []
   \<and> snd (main example_host (mock_kickoff example_result) None example_now example_world) =
       Inr example_result
   \<and> snd (main example_host (mock_kickoff example_result) (Some File) example_now example_world) =
       Inr example_result"
proof -
  have ok: "snd (main example_host (mock_kickoff example_result) root example_now example_world) =
       Inr example_result" for root
  proof -
    have "snd (main example_host (mock_kickoff example_result) root example_now example_world) =
        snd (fst (main example_host (mock_kickoff example_result) root example_now example_world),
             (Inr example_result :: py_error + pipeline_result))"
      using main_mock_kickoff [of example_result root example_now] by (rule arg_cong)
    then show ?thesis by simp
  qed
  note missing = missing_root_gives_empty_file_set
      [of None example_host "mock_kickoff example_result" example_now example_world,
        OF disjI1 [OF refl], THEN conjunct2, THEN conjunct1]
  note not_a_dir = missing_root_gives_empty_file_set
      [of "Some File" example_host "mock_kickoff example_result" example_now example_world,
        OF disjI2 [OF refl], THEN conjunct2, THEN conjunct1]
  from missing not_a_dir ok [of None] ok [of "Some File"] show ?thesis
    by (intro conjI)
qed

lemma lookup_names_mem: "lookup_names es x p = Some n \<Longrightarrow> x \<in> fst ` set es"
  by (induction es) (auto split: if_splits)
























lemma no_sep_prefix:
  "s \<notin> set x \<Longrightarrow> x \<noteq> y @ s # r"
  by auto























end
